theory Spec2Isabelle
  imports Complex_Main
begin

section \<open>Python values used by the retrieval engine\<close>

text \<open>
  The repository is Python.  Exceptions are values of the type \<open>error\<close>; a function that
  can raise returns \<open>error + 'a\<close> with \<open>Inl\<close> for the exception.  Scores are Python and
  NumPy floats; they are modelled by real numbers, so rounding is outside the model, and
  the infinities and NaN that a NumPy division by zero would produce are the error
  \<open>DivisionByZero\<close>.  Strings are lists of 8-bit characters.
\<close>

datatype error = ValueError | IndexError | DivisionByZero

text \<open>The built-in \<open>max\<close> of Python over a sequence: \<open>ValueError\<close> on an empty one.\<close>

fun py_max :: "real list \<Rightarrow> error + real" where
  "py_max [] = Inl ValueError"
| "py_max (x # xs) = Inr (fold max xs x)"

text \<open>Indexing \<open>xs[i]\<close> with a non-negative index: \<open>IndexError\<close> out of range.\<close>

definition py_index :: "'a list \<Rightarrow> nat \<Rightarrow> error + 'a" where
  "py_index xs i = (if i < length xs then Inr (xs ! i) else Inl IndexError)"

text \<open>The slice \<open>xs[:k]\<close>: a negative \<open>k\<close> counts from the end.\<close>

definition py_take :: "int \<Rightarrow> 'a list \<Rightarrow> 'a list" where
  "py_take k xs = (if 0 \<le> k then take (nat k) xs else take (nat (int (length xs) + k)) xs)"

subsection \<open>NumPy array operations\<close>

text \<open>\<open>a / d\<close> for an array and a scalar.\<close>

definition np_div :: "real list \<Rightarrow> real \<Rightarrow> error + real list" where
  "np_div a d = (if d = 0 then Inl DivisionByZero else Inr (map (\<lambda>x. x / d) a))"

text \<open>\<open>w * a\<close> for a scalar and an array.\<close>

definition np_scale :: "real \<Rightarrow> real list \<Rightarrow> real list" where
  "np_scale w a = map (\<lambda>x. w * x) a"

text \<open>
  \<open>a + b\<close> for two one-dimensional arrays: elementwise for equal lengths, an array of
  length one is broadcast, any other pair of lengths raises \<open>ValueError\<close>.
\<close>

definition np_add :: "real list \<Rightarrow> real list \<Rightarrow> error + real list" where
  "np_add a b =
     (if length a = length b then Inr (map (\<lambda>(x, y). x + y) (zip a b))
      else if length a = 1 then Inr (map (\<lambda>y. hd a + y) b)
      else if length b = 1 then Inr (map (\<lambda>x. x + hd b) a)
      else Inl ValueError)"

text \<open>
  \<open>a.argsort()\<close> with the default kind.  NumPy documents that it returns the indices that
  sort \<open>a\<close> into ascending order, and that the default sort is not stable: which of two
  equal values comes first is not fixed.  So the function is a parameter of the model, the
  field \<open>argsort\<close> of a retriever, and \<open>argsort_contract\<close> is what the documentation fixes
  of it: the result holds every index once, in ascending order of the values.
\<close>

definition argsort_contract :: "(real list \<Rightarrow> nat list) \<Rightarrow> bool" where
  "argsort_contract sorter \<longleftrightarrow>
     (\<forall>a. distinct (sorter a) \<and> set (sorter a) = {0..<length a} \<and>
          sorted (map (\<lambda>i. a ! i) (sorter a)))"

text \<open>
  One function that meets the contract, for the examples: the insertion sort of the index
  list \<open>[0, ..., n - 1]\<close> by value.  On two equal values it returns \<open>[0, 1]\<close>, as NumPy
  does; on longer arrays with equal values NumPy may return another order.
\<close>

definition insertion_argsort :: "real list \<Rightarrow> nat list" where
  "insertion_argsort a = sort_key (\<lambda>i. a ! i) [0..<length a]"

section \<open>The fusion ranker: \<open>Retriever.search\<close>\<close>

text \<open>
  The TF-IDF matrix, the BM25 index and the query classifier are built by libraries and by
  a module outside the two source files.  A retriever holds them as functions of the
  query: \<open>tfidf_similarities\<close> is
  \<open>cosine_similarity(vectorizer.transform([query]), doc_vectors).flatten()\<close>,
  \<open>bm25_get_scores\<close> is \<open>bm25_index.get_scores(_tokenize_text(query))\<close>, and
  \<open>analyze_query\<close> is the \<open>weights\<close> dictionary of \<open>query_classifier.analyze_query(query)\<close>.
  It also holds the \<open>argsort\<close> of the NumPy it runs on.
\<close>

record retriever =
  documents :: "string list"
  doc_paths :: "string list"
  tfidf_similarities :: "string \<Rightarrow> real list"
  bm25_get_scores :: "string \<Rightarrow> real list"
  max_results :: int
  analyze_query :: "string \<Rightarrow> (string \<rightharpoonup> real)"
  argsort :: "real list \<Rightarrow> nat list"

record result_meta =
  combined_score :: real
  tfidf_score :: real
  bm25_score :: real

type_synonym result_tuple = "string \<times> string \<times> real \<times> result_meta"

text \<open>\<open>weights.get('sparse', 0.5)\<close> and \<open>weights.get('dense', 0.5)\<close>.\<close>

definition sparse_weight :: "retriever \<Rightarrow> string \<Rightarrow> real" where
  "sparse_weight self query =
     (case analyze_query self query ''sparse'' of Some w \<Rightarrow> w | None \<Rightarrow> 0.5)"

definition dense_weight :: "retriever \<Rightarrow> string \<Rightarrow> real" where
  "dense_weight self query =
     (case analyze_query self query ''dense'' of Some w \<Rightarrow> w | None \<Rightarrow> 0.5)"

text \<open>
  \<open>max(scores) if max(scores) > 0 else 1\<close>: the divisor \<open>max_tfidf\<close>, \<open>max_bm25\<close> of the
  normalisation.
\<close>

definition score_divisor :: "real list \<Rightarrow> error + real" where
  "score_divisor scores =
     (case py_max scores of
        Inl e \<Rightarrow> Inl e
      | Inr m \<Rightarrow> Inr (if m > 0 then m else 1))"

text \<open>The normalisation of one score vector: \<open>scores / score_divisor scores\<close>.\<close>

definition normalize_scores :: "real list \<Rightarrow> error + real list" where
  "normalize_scores scores =
     (case score_divisor scores of
        Inl e \<Rightarrow> Inl e
      | Inr d \<Rightarrow> np_div scores d)"

text \<open>
  The first half of \<open>search\<close>, up to \<open>combined_scores\<close>: both divisors are computed first,
  then both vectors are normalised, weighted and added.
\<close>

definition combined_scores :: "retriever \<Rightarrow> string \<Rightarrow> error + real list" where
  "combined_scores self query =
     (let tfidf = tfidf_similarities self query;
          bm25 = bm25_get_scores self query
      in case score_divisor tfidf of
           Inl e \<Rightarrow> Inl e
         | Inr max_tfidf \<Rightarrow>
             (case score_divisor bm25 of
                Inl e \<Rightarrow> Inl e
              | Inr max_bm25 \<Rightarrow>
                  (case np_div tfidf max_tfidf of
                     Inl e \<Rightarrow> Inl e
                   | Inr tfidf_norm \<Rightarrow>
                       (case np_div bm25 max_bm25 of
                          Inl e \<Rightarrow> Inl e
                        | Inr bm25_norm \<Rightarrow>
                            np_add (np_scale (dense_weight self query) tfidf_norm)
                                   (np_scale (sparse_weight self query) bm25_norm)))))"

text \<open>\<open>combined_scores.argsort()[::-1][:self.max_results]\<close>.\<close>

definition ranked_indices :: "(real list \<Rightarrow> nat list) \<Rightarrow> real list \<Rightarrow> int \<Rightarrow> nat list" where
  "ranked_indices sorter combined k = py_take k (rev (sorter combined))"

text \<open>The body of the result loop for one index: the metadata first, then the tuple.\<close>

definition result_at :: "retriever \<Rightarrow> string \<Rightarrow> real list \<Rightarrow> nat \<Rightarrow> error + result_tuple" where
  "result_at self query combined idx =
     (case py_index combined idx of
        Inl e \<Rightarrow> Inl e
      | Inr c \<Rightarrow>
     (case py_index (tfidf_similarities self query) idx of
        Inl e \<Rightarrow> Inl e
      | Inr t \<Rightarrow>
     (case py_index (bm25_get_scores self query) idx of
        Inl e \<Rightarrow> Inl e
      | Inr b \<Rightarrow>
     (case py_index (documents self) idx of
        Inl e \<Rightarrow> Inl e
      | Inr d \<Rightarrow>
     (case py_index (doc_paths self) idx of
        Inl e \<Rightarrow> Inl e
      | Inr p \<Rightarrow>
          Inr (d, p, c, \<lparr>combined_score = c, tfidf_score = t, bm25_score = b\<rparr>))))))"

text \<open>The loop \<open>for idx in ranked_indices: results.append(...)\<close>.\<close>

fun collect_results ::
  "retriever \<Rightarrow> string \<Rightarrow> real list \<Rightarrow> nat list \<Rightarrow> error + result_tuple list" where
  "collect_results self query combined [] = Inr []"
| "collect_results self query combined (idx # idxs) =
     (case result_at self query combined idx of
        Inl e \<Rightarrow> Inl e
      | Inr r \<Rightarrow>
          (case collect_results self query combined idxs of
             Inl e \<Rightarrow> Inl e
           | Inr rs \<Rightarrow> Inr (r # rs)))"

definition search :: "retriever \<Rightarrow> string \<Rightarrow> error + result_tuple list" where
  "search self query =
     (case combined_scores self query of
        Inl e \<Rightarrow> Inl e
      | Inr combined \<Rightarrow>
          collect_results self query combined
            (ranked_indices (argsort self) combined (max_results self)))"


subsection \<open>\<open>Retriever.__init__\<close>\<close>

text \<open>
  \<open>TfidfVectorizer(...).fit_transform(documents)\<close> and \<open>BM25Okapi(tokenized_docs)\<close> are
  library calls that may raise; each yields the scoring function of its index.  Both see
  the chunk list only.  \<open>np_argsort\<close> is the \<open>argsort\<close> of the installed NumPy.
\<close>

record index_libs =
  fit_tfidf :: "string list \<Rightarrow> error + (string \<Rightarrow> real list)"
  fit_bm25 :: "string list \<Rightarrow> error + (string \<Rightarrow> real list)"
  query_classifier :: "string \<Rightarrow> (string \<rightharpoonup> real)"
  np_argsort :: "real list \<Rightarrow> nat list"

definition Retriever_init ::
  "index_libs \<Rightarrow> string list \<Rightarrow> string list \<Rightarrow> int \<Rightarrow> error + retriever" where
  "Retriever_init libs docs paths k =
     (case fit_tfidf libs docs of
        Inl e \<Rightarrow> Inl e
      | Inr tfidf \<Rightarrow>
          (case fit_bm25 libs docs of
             Inl e \<Rightarrow> Inl e
           | Inr bm25 \<Rightarrow>
               Inr \<lparr>documents = docs, doc_paths = paths, tfidf_similarities = tfidf,
                    bm25_get_scores = bm25, max_results = k,
                    analyze_query = query_classifier libs, argsort = np_argsort libs\<rparr>))"

text \<open>
  A retriever is built and then searched: \<open>retriever = Retriever(docs, paths, k)\<close>
  followed by \<open>retriever.search(query)\<close>.  The outer error is a failure of the
  construction, the inner value is what the search did.
\<close>

definition build_and_search ::
  "index_libs \<Rightarrow> string list \<Rightarrow> string list \<Rightarrow> int \<Rightarrow> string
     \<Rightarrow> error + (error + result_tuple list)" where
  "build_and_search libs docs paths k query =
     (case Retriever_init libs docs paths k of
        Inl e \<Rightarrow> Inl e
      | Inr self \<Rightarrow> Inr (search self query))"

subsection \<open>Example retrievers\<close>

text \<open>
  Index libraries whose scores are all zero, one score per chunk; a retriever over three
  chunks with three different combined scores; and a retriever over two chunks that no
  query matches, so that both combined scores are zero.
\<close>

definition zero_libs :: index_libs where
  "zero_libs =
     \<lparr>fit_tfidf = (\<lambda>docs. Inr (\<lambda>query. replicate (length docs) 0)),
      fit_bm25 = (\<lambda>docs. Inr (\<lambda>query. replicate (length docs) 0)),
      query_classifier = (\<lambda>query. Map.empty),
      np_argsort = insertion_argsort\<rparr>"

definition example_retriever :: retriever where
  "example_retriever =
     \<lparr>documents = [''first chunk'', ''second chunk'', ''third chunk''],
      doc_paths = [''a.txt'', ''b.txt'', ''c.txt''],
      tfidf_similarities = (\<lambda>query. [0, 1, 1 / 2]),
      bm25_get_scores = (\<lambda>query. [1, 0, 2]),
      max_results = 5,
      analyze_query = (\<lambda>query. Map.empty),
      argsort = insertion_argsort\<rparr>"

definition tied_retriever :: retriever where
  "tied_retriever =
     \<lparr>documents = [''first chunk'', ''second chunk''],
      doc_paths = [''a.txt'', ''b.txt''],
      tfidf_similarities = (\<lambda>query. [0, 0]),
      bm25_get_scores = (\<lambda>query. [0, 0]),
      max_results = 5,
      analyze_query = (\<lambda>query. Map.empty),
      argsort = insertion_argsort\<rparr>"

section \<open>The chunker: \<open>chunk_text\<close>\<close>

subsection \<open>String methods\<close>

text \<open>
  \<open>str.isspace\<close> on one character, which is also the class \<open>\s\<close> of a Unicode pattern and
  the separator set of \<open>str.strip()\<close> and \<open>str.split()\<close>: the code points below 256 that
  Python counts as whitespace.
\<close>

definition is_space :: "char \<Rightarrow> bool" where
  "is_space c \<longleftrightarrow>
     c \<in> set [CHR 0x09, CHR 0x0A, CHR 0x0B, CHR 0x0C, CHR 0x0D, CHR 0x1C, CHR 0x1D,
              CHR 0x1E, CHR 0x1F, CHR 0x20, CHR 0x85, CHR 0xA0]"

definition newline :: char where
  "newline = CHR 0x0A"

definition strip :: "string \<Rightarrow> string" where
  "strip s = rev (dropWhile is_space (rev (dropWhile is_space s)))"

text \<open>\<open>s.replace("\n", " ")\<close>.\<close>

definition replace_newlines :: "string \<Rightarrow> string" where
  "replace_newlines s = map (\<lambda>c. if c = newline then CHR 0x20 else c) s"

text \<open>\<open>s.split()\<close>: the maximal runs of non-whitespace; \<open>w\<close> is the word being read.\<close>

fun split_words :: "string \<Rightarrow> string \<Rightarrow> string list" where
  "split_words w [] = (if w = [] then [] else [w])"
| "split_words w (c # cs) =
     (if is_space c then (if w = [] then split_words [] cs else w # split_words [] cs)
      else split_words (w @ [c]) cs)"

definition py_split :: "string \<Rightarrow> string list" where
  "py_split s = split_words [] s"

text \<open>\<open>sep.join(ws)\<close>.\<close>

fun py_join :: "string \<Rightarrow> string list \<Rightarrow> string" where
  "py_join sep [] = []"
| "py_join sep [w] = w"
| "py_join sep (w # ws) = w @ sep @ py_join sep ws"

text \<open>\<open>xs[-n:]\<close> for \<open>n > 0\<close>: the last \<open>n\<close> items, all of them when there are fewer.\<close>

definition py_suffix :: "int \<Rightarrow> 'a list \<Rightarrow> 'a list" where
  "py_suffix n xs = drop (length xs - nat n) xs"

subsection \<open>The paragraph split\<close>

text \<open>
  \<open>re.split(r"\n{2,}|(?<=\n)\s*(?=\S)", s)\<close>, as the matcher runs it: scanning from the
  left, the first position where the pattern matches ends the current piece, and the scan
  goes on after the match.  At a position the first alternative is tried first: two or
  more newlines, taken greedily.  The second alternative needs a newline just before the
  position, takes the whole run of whitespace there and needs a character after the run
  (which is then not whitespace); no shorter run can match, since the next character
  would be whitespace.  An empty match is allowed, but not at the position where the
  previous match was empty and ended (\<open>must_advance\<close>).  The text after the last match is
  the last piece.

  \<open>prev\<close> is the character before the position, \<open>piece\<close> the text since the last match.
\<close>

function re_split_scan :: "bool \<Rightarrow> char option \<Rightarrow> string \<Rightarrow> string \<Rightarrow> string list" where
  "re_split_scan must_advance prev piece rest =
     (if 2 \<le> length (takeWhile (\<lambda>c. c = newline) rest)
      then piece # re_split_scan False (Some newline) [] (dropWhile (\<lambda>c. c = newline) rest)
      else if prev = Some newline \<and> dropWhile is_space rest \<noteq> []
              \<and> \<not> (must_advance \<and> takeWhile is_space rest = [])
      then piece # re_split_scan (takeWhile is_space rest = [])
                     (if takeWhile is_space rest = [] then prev
                      else Some (last (takeWhile is_space rest)))
                     [] (dropWhile is_space rest)
      else (case rest of
              [] \<Rightarrow> [piece]
            | c # cs \<Rightarrow> re_split_scan False (Some c) (piece @ [c]) cs))"
  by pat_completeness auto
termination
proof (relation "measure (\<lambda>(must_advance, prev, piece, rest).
                   2 * length rest + (if must_advance then 0 else 1))", goal_cases)
  case 1
  show ?case by simp
next
  case (2 must_advance prev piece rest)
  have "length (takeWhile (\<lambda>c. c = newline) rest) + length (dropWhile (\<lambda>c. c = newline) rest)
          = length rest"
    by (metis length_append takeWhile_dropWhile_id)
  with 2 show ?case by simp
next
  case (3 must_advance prev piece rest)
  have len: "length (takeWhile is_space rest) + length (dropWhile is_space rest) = length rest"
    by (metis length_append takeWhile_dropWhile_id)
  show ?case
  proof (cases "takeWhile is_space rest = []")
    case True
    then have "dropWhile is_space rest = rest"
      by (metis append_Nil takeWhile_dropWhile_id)
    moreover from 3 True have "\<not> must_advance"
      by simp
    ultimately show ?thesis using True by simp
  next
    case False
    then have "0 < length (takeWhile is_space rest)"
      by simp
    with len have "length (dropWhile is_space rest) < length rest"
      by linarith
    then show ?thesis using False by simp
  qed
next
  case (4 must_advance prev piece rest c cs)
  then show ?case by simp
qed

declare re_split_scan.simps [simp del]

definition re_split_paragraphs :: "string \<Rightarrow> string list" where
  "re_split_paragraphs s = re_split_scan False None [] s"

subsection \<open>The chunk loop\<close>

text \<open>
  The loop over the paragraphs with its three variables \<open>chunks\<close>, \<open>current_chunk\<close> and
  \<open>current_length\<close>, and the flush of the last buffer after the loop.
\<close>

fun chunk_loop ::
  "int \<Rightarrow> int \<Rightarrow> string list \<Rightarrow> string list \<Rightarrow> int \<Rightarrow> string list \<Rightarrow> string list" where
  "chunk_loop chunk_size overlap chunks current_chunk current_length [] =
     (if current_chunk \<noteq> [] then chunks @ [py_join '' '' current_chunk] else chunks)"
| "chunk_loop chunk_size overlap chunks current_chunk current_length (para # paragraphs) =
     (let para_words = py_split para in
      if para_words = [] then
        chunk_loop chunk_size overlap chunks current_chunk current_length paragraphs
      else if current_length + int (length para_words) \<le> chunk_size then
        chunk_loop chunk_size overlap chunks (current_chunk @ para_words)
          (current_length + int (length para_words)) paragraphs
      else
        (let overlap_words = (if overlap > 0 then py_suffix overlap current_chunk else [])
         in chunk_loop chunk_size overlap (chunks @ [py_join '' '' current_chunk])
              (overlap_words @ para_words) (int (length (overlap_words @ para_words)))
              paragraphs))"

definition paragraphs_of :: "string \<Rightarrow> string list" where
  "paragraphs_of text =
     map (\<lambda>p. replace_newlines (strip p))
       (filter (\<lambda>p. strip p \<noteq> []) (re_split_paragraphs (strip text)))"

definition chunk_text :: "string \<Rightarrow> int \<Rightarrow> int \<Rightarrow> string list" where
  "chunk_text text chunk_size overlap =
     chunk_loop chunk_size overlap [] [] 0 (paragraphs_of text)"


section \<open>The chunk cache: \<open>Retriever.load_and_chunk_files\<close>\<close>

text \<open>
  The file system and the text extraction are the environment of the reconcile step:
  \<open>stat\<close> is \<open>None\<close> for a path that does not exist and the result of \<open>Path.stat()\<close>
  otherwise, \<open>read_text\<close> is the extraction of the text of a file (the empty string when
  it fails), \<open>path_name\<close> and \<open>resolve\<close> are \<open>Path.name\<close> and \<open>Path.resolve()\<close>, and
  \<open>isoformat\<close> is \<open>datetime.fromtimestamp(t).isoformat()\<close>.  A path is its string.
\<close>

record file_info =
  st_mtime :: real
  st_ctime :: real
  st_size :: nat

record filesystem =
  stat :: "string \<Rightarrow> file_info option"
  read_text :: "string \<Rightarrow> string"
  path_name :: "string \<Rightarrow> string"
  resolve :: "string \<Rightarrow> string"
  isoformat :: "real \<Rightarrow> string"

text \<open>
  One cache record.  Only \<open>file_path\<close> is read without a test, so it is the one key that
  must be there; every other key may be absent (\<open>None\<close>).
\<close>

record file_meta =
  file_path :: string
  chunks :: "string list option"
  num_chunks :: "nat option"
  last_modified :: "real option"
  file_name :: "string option"
  size_kb :: "real option"
  created_at :: "string option"

text \<open>
  The library is a dictionary from file names to records: a list of pairs in insertion
  order, whose keys are distinct.
\<close>

type_synonym library = "(string \<times> file_meta) list"

text \<open>\<open>read_and_chunk_file\<close>: extraction, then \<open>chunk_text\<close> with its default parameters.\<close>

definition read_and_chunk_file :: "filesystem \<Rightarrow> string \<Rightarrow> string list \<times> string" where
  "read_and_chunk_file fs path = (chunk_text (read_text fs path) 500 50, path)"

text \<open>\<open>round(x, 2)\<close>: to the nearest hundredth, a tie to the even one.\<close>

definition round_half_even :: "real \<Rightarrow> int" where
  "round_half_even x =
     (if x - of_int \<lfloor>x\<rfloor> < 1 / 2 then \<lfloor>x\<rfloor>
      else if x - of_int \<lfloor>x\<rfloor> > 1 / 2 then \<lfloor>x\<rfloor> + 1
      else if even \<lfloor>x\<rfloor> then \<lfloor>x\<rfloor> else \<lfloor>x\<rfloor> + 1)"

definition py_round2 :: "real \<Rightarrow> real" where
  "py_round2 x = of_int (round_half_even (x * 100)) / 100"

text \<open>
  The test \<open>"chunks" not in file_meta or not file_meta["chunks"] or
  cached_mtime != current_mtime\<close>, where \<open>cached_mtime\<close> is \<open>file_meta.get("last_modified")\<close>.
\<close>

definition needs_chunking :: "file_meta \<Rightarrow> real \<Rightarrow> bool" where
  "needs_chunking meta current_mtime \<longleftrightarrow>
     chunks meta = None \<or> chunks meta = Some [] \<or> last_modified meta \<noteq> Some current_mtime"

text \<open>
  The body of the loop for a file that exists, with its \<open>stat()\<close> result: the record to
  store back, the chunks of the file (\<open>chunks\<close>) and whether it was chunked again.  In the
  branch that reuses the stored chunks the key \<open>chunks\<close> is present and its list is not
  empty.
\<close>

definition process_file ::
  "filesystem \<Rightarrow> file_meta \<Rightarrow> file_info \<Rightarrow> file_meta \<times> string list \<times> bool" where
  "process_file fs meta info =
     (let path = file_path meta;
          current_mtime = st_mtime info;
          created_time = st_ctime info;
          needs = needs_chunking meta current_mtime;
          new_chunks = (if needs then fst (read_and_chunk_file fs path)
                        else (case chunks meta of Some cs \<Rightarrow> cs | None \<Rightarrow> []));
          meta1 = (if needs
                   then meta\<lparr>chunks := Some new_chunks,
                             num_chunks := Some (length new_chunks),
                             last_modified := Some current_mtime\<rparr>
                   else meta);
          meta2 = meta1\<lparr>file_name := Some (path_name fs path),
                        file_path := resolve fs path,
                        size_kb := Some (py_round2 (real (st_size info) / 1024)),
                        created_at := Some (isoformat fs created_time)\<rparr>
      in (meta2, new_chunks, needs))"

text \<open>
  The variables of the loop, with the record set rebuilt entry by entry, and the calls of
  \<open>read_and_chunk_file\<close> made so far (\<open>extracted\<close>, the paths in call order).
\<close>

record load_state =
  library :: library
  all_chunks :: "string list"
  all_sources :: "string list"
  updated :: bool
  extracted :: "string list"

text \<open>
  The loop \<open>for file_name in list(library.keys())\<close>.  It reads the record of each key and
  stores it back under the same key, so it is a pass over the entries in order.  A file
  that does not exist is passed over (\<open>continue\<close>) with its entry kept as it is.
\<close>

fun load_loop :: "filesystem \<Rightarrow> load_state \<Rightarrow> library \<Rightarrow> load_state" where
  "load_loop fs st [] = st"
| "load_loop fs st ((name, meta) # rest) =
     (case stat fs (file_path meta) of
        None \<Rightarrow> load_loop fs (st\<lparr>library := library st @ [(name, meta)]\<rparr>) rest
      | Some info \<Rightarrow>
          (case process_file fs meta info of
             (meta2, new_chunks, needs) \<Rightarrow>
               load_loop fs
                 \<lparr>library = library st @ [(name, meta2)],
                  all_chunks = all_chunks st @ new_chunks,
                  all_sources = all_sources st @ replicate (length new_chunks) (file_path meta),
                  updated = (updated st \<or> needs),
                  extracted = extracted st @ (if needs then [file_path meta] else [])\<rparr>
                 rest))"

text \<open>
  The result of \<open>load_and_chunk_files\<close>: the three returned values, the record set written
  to \<open>file_library_path\<close> by \<open>json.dump\<close> if there was a write (\<open>written\<close>), and the
  extraction calls.  The parameter \<open>chunk_size\<close> is not used by the body.
\<close>

record reconcile_result =
  new_library :: library
  flat_chunks :: "string list"
  flat_sources :: "string list"
  written :: "(string \<times> library) option"
  extraction_calls :: "string list"

definition load_and_chunk_files ::
  "filesystem \<Rightarrow> library \<Rightarrow> string \<Rightarrow> int \<Rightarrow> reconcile_result" where
  "load_and_chunk_files fs lib file_library_path chunk_size =
     (let st = load_loop fs
                 \<lparr>library = [], all_chunks = [], all_sources = [], updated = False,
                  extracted = []\<rparr> lib
      in \<lparr>new_library = library st,
          flat_chunks = all_chunks st,
          flat_sources = all_sources st,
          written = (if updated st then Some (file_library_path, library st) else None),
          extraction_calls = extracted st\<rparr>)"

text \<open>
  What one iteration of the loop does with the record of an entry: the record it keeps,
  the chunks it adds to the flattened list, and whether it called \<open>read_and_chunk_file\<close>.
\<close>

definition entry_step :: "filesystem \<Rightarrow> file_meta \<Rightarrow> file_meta \<times> string list \<times> bool" where
  "entry_step fs meta =
     (case stat fs (file_path meta) of
        None \<Rightarrow> (meta, [], False)
      | Some info \<Rightarrow> process_file fs meta info)"

subsection \<open>Example file systems and libraries\<close>

text \<open>
  A file system with the one file \<open>notes.txt\<close>, whose text is \<open>text\<close>, and a library that
  tracks it, not yet chunked, together with a file \<open>gone.txt\<close> that is no longer there.
\<close>

definition one_file_fs :: "string \<Rightarrow> filesystem" where
  "one_file_fs text =
     \<lparr>stat = (\<lambda>path. if path = ''notes.txt''
                      then Some \<lparr>st_mtime = 7, st_ctime = 5, st_size = 2048\<rparr> else None),
      read_text = (\<lambda>path. text),
      path_name = (\<lambda>path. path),
      resolve = (\<lambda>path. path),
      isoformat = (\<lambda>t. ''1970-01-01T00:00:05'')\<rparr>"

definition new_entry :: "string \<Rightarrow> file_meta" where
  "new_entry path =
     \<lparr>file_path = path, chunks = None, num_chunks = None, last_modified = None,
      file_name = None, size_kb = None, created_at = None\<rparr>"

definition gone_entry :: file_meta where
  "gone_entry =
     \<lparr>file_path = ''gone.txt'', chunks = Some [''old text''], num_chunks = Some 1,
      last_modified = Some 3, file_name = Some ''gone.txt'', size_kb = Some 1,
      created_at = Some ''1970-01-01T00:00:02''\<rparr>"

definition example_library :: library where
  "example_library = [(''notes.txt'', new_entry ''notes.txt''), (''gone.txt'', gone_entry)]"

section \<open>Answer generation: \<open>generate_answer\<close>\<close>

text \<open>The decimal digits of \<open>i + 1\<close> in an f-string.\<close>

fun show_nat :: "nat \<Rightarrow> string" where
  "show_nat n =
     (if n < 10 then [char_of (48 + n)]
      else show_nat (n div 10) @ [char_of (48 + n mod 10)])"

declare show_nat.simps [simp del]

text \<open>
  \<open>format_context\<close>.  The loop over \<open>enumerate(zip(chunks[:max_chunks],
  scores[:max_chunks]))\<close> appends one block per pair; \<open>format_2f\<close> is the float format
  \<open>{score:.2f}\<close>.
\<close>

fun format_loop :: "(real \<Rightarrow> string) \<Rightarrow> nat \<Rightarrow> string \<Rightarrow> (string \<times> real) list \<Rightarrow> string" where
  "format_loop format_2f i context [] = context"
| "format_loop format_2f i context ((chunk, score) # rest) =
     format_loop format_2f (i + 1)
       (context @ ''**Source '' @ show_nat (i + 1) @ '' (Relevance: '' @ format_2f score
          @ ''):**'' @ [newline] @ strip chunk @ [newline, newline])
       rest"

definition format_context ::
  "(real \<Rightarrow> string) \<Rightarrow> string list \<Rightarrow> real list \<Rightarrow> int \<Rightarrow> string" where
  "format_context format_2f chunk_list scores max_chunks =
     strip (format_loop format_2f 0 []
              (zip (py_take max_chunks chunk_list) (py_take max_chunks scores)))"

definition fallback_answer :: string where
  "fallback_answer = ''I couldn't find any relevant content to answer your question.''"

definition document_prompt :: "string \<Rightarrow> string \<Rightarrow> string" where
  "document_prompt context query =
     ''**Role**: You are a document-based assistant. '' @ [newline]
     @ ''1. Base answers ONLY on the provided context below.'' @ [newline]
     @ ''2. If unsure, say '' @ [CHR 0x22] @ ''I don't have enough information.''
     @ [CHR 0x22] @ [newline]
     @ ''3. Cite sources using [1], [2], etc.'' @ [newline]
     @ [newline]
     @ ''**Context**:'' @ [newline]
     @ context @ [newline]
     @ [newline]
     @ ''**Question**: '' @ query @ [newline]
     @ [newline]
     @ ''**Answer**:''"

definition knowledge_prompt :: "string \<Rightarrow> string \<Rightarrow> string" where
  "knowledge_prompt context query =
     ''You are an assistant who can answer questions using your own knowledge *and* optional context. ''
     @ [newline]
     @ ''If the context is useful, incorporate it. Otherwise, I would love it if you relied on your own knowledge. Cite any relevant local sources as [1].''
     @ [newline]
     @ [newline]
     @ ''**Context**:'' @ [newline]
     @ context @ [newline]
     @ [newline]
     @ [newline]
     @ [newline]
     @ ''**Question**: '' @ query
     @ ''. It is more than okay if none of the context is relevant. Tell me what you know.''
     @ [newline]
     @ [newline]
     @ ''**Answer**:''"

text \<open>The cross mark that starts the failure string, as its three UTF-8 bytes.\<close>

definition error_prefix :: string where
  "error_prefix = [CHR 0xE2, CHR 0x9D, CHR 0x8C] @ '' Error generating answer: ''"

text \<open>
  \<open>generate_answer\<close>.  The collaborator \<open>model.generate_content(prompt)\<close> gives the text of
  the response (\<open>Inr\<close>) or raises, with the message of the exception (\<open>Inl\<close>).  The function
  returns its value together with the prompts it sent to the collaborator, in order.
\<close>

definition generate_answer ::
  "(string \<Rightarrow> string + string) \<Rightarrow> (real \<Rightarrow> string) \<Rightarrow> string \<Rightarrow> string list \<Rightarrow> real list
     \<Rightarrow> bool \<Rightarrow> (error + string) \<times> string list" where
  "generate_answer generate_content format_2f query chunk_list scores search_web =
     (if chunk_list = [] \<and> \<not> search_web then (Inr fallback_answer, [])
      else
        (case (if chunk_list \<noteq> [] \<and> search_web then
                 (case py_index chunk_list 0 of
                    Inl e \<Rightarrow> Inl e
                  | Inr chunk0 \<Rightarrow>
                      (case py_index scores 0 of
                         Inl e \<Rightarrow> Inl e
                       | Inr score0 \<Rightarrow> Inr (format_context format_2f [chunk0] [score0] 1)))
               else if chunk_list \<noteq> [] then Inr (format_context format_2f chunk_list scores 5)
               else Inr [])
         of
           Inl e \<Rightarrow> (Inl e, [])
         | Inr context \<Rightarrow>
             (let prompt = (if \<not> search_web then document_prompt context query
                            else knowledge_prompt context query)
              in case generate_content prompt of
                   Inr text \<Rightarrow> (Inr (strip text), [prompt])
                 | Inl e \<Rightarrow> (Inr (error_prefix @ e), [prompt]))))"

section \<open>Properties of the fusion ranker\<close>

subsection \<open>Auxiliary facts\<close>

lemma py_max_Max:
  assumes "scores \<noteq> []"
  shows "py_max scores = Inr (Max (set scores))"
proof (cases scores)
  case Nil
  with assms show ?thesis by simp
next
  case (Cons x xs)
  have "fold max xs x = Max (set (x # xs))"
    by (rule Max.set_eq_fold [symmetric])
  with Cons show ?thesis by simp
qed

lemma score_divisor_pos: "score_divisor scores = Inr d \<Longrightarrow> 0 < d"
  by (auto simp: score_divisor_def split: sum.splits if_splits)

lemma normalize_scores_Inr:
  "normalize_scores scores = Inr ys \<Longrightarrow>
     \<exists>d. score_divisor scores = Inr d \<and> 0 < d \<and> ys = map (\<lambda>x. x / d) scores"
  by (auto simp: normalize_scores_def np_div_def score_divisor_pos split: sum.splits if_splits)

lemma np_add_nth:
  "np_add a b = Inr c \<Longrightarrow> i < length a \<Longrightarrow> i < length b \<Longrightarrow> c ! i = a ! i + b ! i"
proof -
  have hd0: "hd xs = xs ! 0" if "length xs = 1" for xs :: "real list"
    using that by (cases xs) simp_all
  assume "np_add a b = Inr c" "i < length a" "i < length b"
  then show ?thesis
    by (auto simp: np_add_def hd0 split: if_splits)
qed

lemma combined_scores_Inr:
  assumes "combined_scores self query = Inr combined"
  shows "\<exists>tfidf_norm bm25_norm.
           normalize_scores (tfidf_similarities self query) = Inr tfidf_norm \<and>
           normalize_scores (bm25_get_scores self query) = Inr bm25_norm \<and>
           length tfidf_norm = length (tfidf_similarities self query) \<and>
           length bm25_norm = length (bm25_get_scores self query) \<and>
           (\<forall>i. i < length tfidf_norm \<longrightarrow> i < length bm25_norm \<longrightarrow>
                combined ! i = dense_weight self query * tfidf_norm ! i
                              + sparse_weight self query * bm25_norm ! i)"
proof -
  from assms obtain d1 d2 tn bn where
    d1: "score_divisor (tfidf_similarities self query) = Inr d1" and
    d2: "score_divisor (bm25_get_scores self query) = Inr d2" and
    tn: "np_div (tfidf_similarities self query) d1 = Inr tn" and
    bn: "np_div (bm25_get_scores self query) d2 = Inr bn" and
    add: "np_add (np_scale (dense_weight self query) tn)
                 (np_scale (sparse_weight self query) bn) = Inr combined"
    by (auto simp: combined_scores_def Let_def split: sum.splits)
  have n1: "normalize_scores (tfidf_similarities self query) = Inr tn"
    using d1 tn by (simp add: normalize_scores_def)
  have n2: "normalize_scores (bm25_get_scores self query) = Inr bn"
    using d2 bn by (simp add: normalize_scores_def)
  have l1: "length tn = length (tfidf_similarities self query)"
    using tn by (auto simp: np_div_def split: if_splits)
  have l2: "length bn = length (bm25_get_scores self query)"
    using bn by (auto simp: np_div_def split: if_splits)
  have "combined ! i = dense_weight self query * tn ! i + sparse_weight self query * bn ! i"
    if "i < length tn" "i < length bn" for i
    using np_add_nth [OF add, of i] that by (simp add: np_scale_def)
  with n1 n2 l1 l2 show ?thesis by blast
qed

lemma result_at_Inr:
  assumes "result_at self query combined idx = Inr r"
  shows "idx < length combined \<and> idx < length (tfidf_similarities self query) \<and>
         idx < length (bm25_get_scores self query) \<and> idx < length (documents self) \<and>
         idx < length (doc_paths self) \<and>
         r = (documents self ! idx, doc_paths self ! idx, combined ! idx,
              \<lparr>combined_score = combined ! idx,
               tfidf_score = tfidf_similarities self query ! idx,
               bm25_score = bm25_get_scores self query ! idx\<rparr>)"
  using assms by (auto simp: result_at_def py_index_def split: sum.splits if_splits)

lemma collect_results_Inr:
  "collect_results self query combined idxs = Inr rs \<Longrightarrow>
     list_all2 (\<lambda>idx r. result_at self query combined idx = Inr r) idxs rs"
  by (induction idxs arbitrary: rs) (auto split: sum.splits)

lemma length_py_take: "0 \<le> k \<Longrightarrow> length (py_take k xs) \<le> nat k"
  by (simp add: py_take_def)

lemma search_Inr:
  assumes "search self query = Inr results"
  shows "\<exists>combined. combined_scores self query = Inr combined \<and>
           list_all2 (\<lambda>idx r. result_at self query combined idx = Inr r)
             (ranked_indices (argsort self) combined (max_results self)) results"
  using assms by (auto simp: search_def split: sum.splits dest: collect_results_Inr)

lemma insertion_argsort_contract: "argsort_contract insertion_argsort"
  by (simp add: argsort_contract_def insertion_argsort_def)

lemma ranked_indices_descending:
  assumes "argsort_contract sorter"
  shows "distinct (ranked_indices sorter combined k) \<and>
         set (ranked_indices sorter combined k) \<subseteq> {0..<length combined} \<and>
         sorted_wrt (\<lambda>i j. combined ! j \<le> combined ! i) (ranked_indices sorter combined k)"
proof -
  from assms have d: "distinct (sorter combined)"
    and s: "set (sorter combined) = {0..<length combined}"
    and o: "sorted (map (\<lambda>i. combined ! i) (sorter combined))"
    by (simp_all add: argsort_contract_def)
  from o have "sorted_wrt (\<lambda>i j. combined ! i \<le> combined ! j) (sorter combined)"
    by (simp add: sorted_wrt_map)
  then have "sorted_wrt (\<lambda>i j. combined ! j \<le> combined ! i) (rev (sorter combined))"
    by (simp add: sorted_wrt_rev)
  then have "sorted_wrt (\<lambda>i j. combined ! j \<le> combined ! i)
               (ranked_indices sorter combined k)"
    by (simp add: ranked_indices_def py_take_def)
  moreover have "distinct (ranked_indices sorter combined k)"
    using d by (simp add: ranked_indices_def py_take_def)
  moreover have "set (ranked_indices sorter combined k) \<subseteq> {0..<length combined}"
    using s set_take_subset [of _ "rev (sorter combined)"]
    by (auto simp: ranked_indices_def py_take_def)
  ultimately show ?thesis
    by blast
qed

lemma score_divisor_error: "score_divisor scores = Inl e \<Longrightarrow> e = ValueError"
  by (cases scores) (simp_all add: score_divisor_def)

lemma combined_scores_error: "combined_scores self query = Inl e \<Longrightarrow> e = ValueError"
  by (auto simp: combined_scores_def Let_def np_div_def np_add_def
      split: sum.splits if_splits dest: score_divisor_error score_divisor_pos)

lemma result_at_error: "result_at self query combined idx = Inl e \<Longrightarrow> e = IndexError"
  by (auto simp: result_at_def py_index_def split: sum.splits if_splits)

lemma collect_results_error:
  "collect_results self query combined idxs = Inl e \<Longrightarrow> e = IndexError"
  by (induction idxs) (auto split: sum.splits dest: result_at_error)

lemma search_error: "search self query = Inl e \<Longrightarrow> e = ValueError \<or> e = IndexError"
  by (auto simp: search_def split: sum.splits
      dest: combined_scores_error collect_results_error)

lemma example_search:
  "search example_retriever ''q''
     = Inr [(''third chunk'', ''c.txt'', 3 / 4,
             \<lparr>combined_score = 3 / 4, tfidf_score = 1 / 2, bm25_score = 2\<rparr>),
            (''second chunk'', ''b.txt'', 1 / 2,
             \<lparr>combined_score = 1 / 2, tfidf_score = 1, bm25_score = 0\<rparr>),
            (''first chunk'', ''a.txt'', 1 / 4,
             \<lparr>combined_score = 1 / 4, tfidf_score = 0, bm25_score = 1\<rparr>)]"
  by (simp add: search_def combined_scores_def score_divisor_def np_div_def np_add_def
      np_scale_def dense_weight_def sparse_weight_def ranked_indices_def
      insertion_argsort_def py_take_def result_at_def py_index_def example_retriever_def)

lemma example_combined: "combined_scores example_retriever ''q'' = Inr [1 / 4, 1 / 2, 3 / 4]"
  by (simp add: combined_scores_def score_divisor_def np_div_def np_add_def
      np_scale_def dense_weight_def sparse_weight_def example_retriever_def)

lemma example_contract: "argsort_contract (argsort example_retriever)"
  by (simp add: example_retriever_def insertion_argsort_contract)

subsection \<open>Search on an empty corpus\<close>

text \<open>
  Claim C1 says that a search against an empty corpus snapshot returns an empty result list
  and raises no error.  The code has no test for the empty snapshot: with no chunk both
  score vectors are empty, and \<open>max(tfidf_similarities)\<close> raises \<open>ValueError\<close> before any
  result is collected, for every query, every weight, every \<open>max_results\<close> and every
  \<open>argsort\<close>.
\<close>

theorem search_empty_corpus:
  "search \<lparr>documents = [], doc_paths = [], tfidf_similarities = (\<lambda>q. []),
           bm25_get_scores = (\<lambda>q. []), max_results = k, analyze_query = classify,
           argsort = sorter\<rparr> query
     = Inl ValueError"
  by (simp add: search_def combined_scores_def score_divisor_def)

subsection \<open>Ranking order\<close>

text \<open>
  Claim C2, as amended.  Let \<open>argsort\<close> do what NumPy documents.  When \<open>search\<close> returns,
  its results are the chunks at the indices \<open>combined_scores.argsort()[::-1][:max_results]\<close>,
  each with its source path and its combined score; no chunk is
  returned twice; and the combined scores are in descending order.  Chunks with equal
  combined scores come in the reverse of the order in which \<open>argsort\<close> returns them,
  which NumPy does not fix, so the earlier chunk need not come first.  The result is a
  function of the retriever and the query, so a repeated call returns the same list.
\<close>

theorem search_ranking_order:
  assumes "search self query = Inr results" and "argsort_contract (argsort self)"
  shows "\<exists>combined idxs.
           combined_scores self query = Inr combined \<and>
           idxs = py_take (max_results self) (rev (argsort self combined)) \<and>
           length results = length idxs \<and>
           (\<forall>j < length results.
              idxs ! j < length combined \<and>
              fst (results ! j) = documents self ! (idxs ! j) \<and>
              fst (snd (results ! j)) = doc_paths self ! (idxs ! j) \<and>
              fst (snd (snd (results ! j))) = combined ! (idxs ! j)) \<and>
           distinct idxs \<and>
           (\<forall>j k. j < k \<longrightarrow> k < length idxs \<longrightarrow>
              combined ! (idxs ! k) \<le> combined ! (idxs ! j))"
proof -
  from search_Inr [OF assms(1)] obtain combined where
    c: "combined_scores self query = Inr combined" and
    rs: "list_all2 (\<lambda>idx r. result_at self query combined idx = Inr r)
           (ranked_indices (argsort self) combined (max_results self)) results"
    by blast
  let ?idxs = "ranked_indices (argsort self) combined (max_results self)"
  have eq: "?idxs = py_take (max_results self) (rev (argsort self combined))"
    by (simp add: ranked_indices_def)
  have len: "length results = length ?idxs"
    using list_all2_lengthD [OF rs] by simp
  have each: "?idxs ! j < length combined \<and>
              fst (results ! j) = documents self ! (?idxs ! j) \<and>
              fst (snd (results ! j)) = doc_paths self ! (?idxs ! j) \<and>
              fst (snd (snd (results ! j))) = combined ! (?idxs ! j)"
    if "j < length results" for j
  proof -
    from rs that len have "result_at self query combined (?idxs ! j) = Inr (results ! j)"
      by (simp add: list_all2_conv_all_nth)
    from result_at_Inr [OF this] show ?thesis
      by simp
  qed
  from ranked_indices_descending [OF assms(2), of combined "max_results self"]
  have dist: "distinct ?idxs"
    and sorted: "sorted_wrt (\<lambda>i j. combined ! j \<le> combined ! i) ?idxs"
    by simp_all
  have order: "combined ! (?idxs ! k) \<le> combined ! (?idxs ! j)"
    if "j < k" "k < length ?idxs" for j k
    using sorted that by (simp add: sorted_wrt_iff_nth_less)
  from c eq len each dist order show ?thesis
    by metis
qed

theorem search_ranking_order_witness:
  "search example_retriever ''q''
     = Inr [(''third chunk'', ''c.txt'', 3 / 4,
             \<lparr>combined_score = 3 / 4, tfidf_score = 1 / 2, bm25_score = 2\<rparr>),
            (''second chunk'', ''b.txt'', 1 / 2,
             \<lparr>combined_score = 1 / 2, tfidf_score = 1, bm25_score = 0\<rparr>),
            (''first chunk'', ''a.txt'', 1 / 4,
             \<lparr>combined_score = 1 / 4, tfidf_score = 0, bm25_score = 1\<rparr>)] \<and>
   argsort_contract (argsort example_retriever) \<and>
   combined_scores example_retriever ''q'' = Inr [1 / 4, 1 / 2, 3 / 4] \<and>
   py_take (max_results example_retriever)
     (rev (argsort example_retriever [1 / 4, 1 / 2, 3 / 4])) = [2, 1, 0]"
proof -
  from search_ranking_order [OF example_search example_contract] obtain combined idxs where
    "combined_scores example_retriever ''q'' = Inr combined"
    "idxs = py_take (max_results example_retriever) (rev (argsort example_retriever combined))"
    "distinct idxs"
    by blast
  moreover have "py_take (max_results example_retriever)
                   (rev (argsort example_retriever [1 / 4, 1 / 2, 3 / 4])) = [2, 1, 0]"
    by (simp add: insertion_argsort_def py_take_def example_retriever_def)
  ultimately show ?thesis
    using example_search example_combined example_contract by simp
qed

text \<open>
  The claim as stated asks for the earlier chunk first.  On two chunks that a query does
  not match, both combined scores are 0, \<open>argsort\<close> returns the indices 0 and 1 in this
  order, and the reversal puts the second chunk first.
\<close>

theorem search_tie_counterexample:
  "search tied_retriever ''q''
     = Inr [(''second chunk'', ''b.txt'', 0,
             \<lparr>combined_score = 0, tfidf_score = 0, bm25_score = 0\<rparr>),
            (''first chunk'', ''a.txt'', 0,
             \<lparr>combined_score = 0, tfidf_score = 0, bm25_score = 0\<rparr>)]"
  by (simp add: search_def combined_scores_def score_divisor_def np_div_def np_add_def
      np_scale_def dense_weight_def sparse_weight_def ranked_indices_def
      insertion_argsort_def py_take_def result_at_def py_index_def tied_retriever_def)

subsection \<open>Normalisation\<close>

text \<open>
  Claim C4, as amended.  For every score vector that is not empty, the maximum \<open>m\<close> exists
  and the vector is divided by \<open>m\<close> when \<open>m\<close> is positive and by 1 otherwise, that is when
  \<open>m\<close> is 0 or negative, which leaves the vector unchanged.  The division is defined (the
  result is not \<open>DivisionByZero\<close>), an all-zero vector stays all-zero, and every normalised
  entry is at most 1.  An entry is at least 0 when no raw entry is negative; a negative
  raw entry stays negative.  \<open>search\<close> normalises the TF-IDF vector and the BM25 vector by
  these two steps, and neither its combined scores nor its result are ever
  \<open>DivisionByZero\<close>.
\<close>

theorem normalize_scores_guard:
  assumes "scores \<noteq> []"
  shows "\<exists>m normalized.
           py_max scores = Inr m \<and> m = Max (set scores) \<and>
           normalize_scores scores = Inr normalized \<and>
           normalized = map (\<lambda>x. x / (if 0 < m then m else 1)) scores \<and>
           (m \<le> 0 \<longrightarrow> normalized = scores) \<and>
           ((\<forall>x \<in> set scores. x = 0) \<longrightarrow> (\<forall>y \<in> set normalized. y = 0)) \<and>
           (\<forall>y \<in> set normalized. y \<le> 1) \<and>
           ((\<forall>x \<in> set scores. 0 \<le> x) \<longrightarrow> (\<forall>y \<in> set normalized. 0 \<le> y)) \<and>
           (\<forall>i < length scores. scores ! i < 0 \<longrightarrow> normalized ! i < 0) \<and>
           combined_scores self query \<noteq> Inl DivisionByZero \<and>
           search self query \<noteq> Inl DivisionByZero"
proof -
  let ?m = "Max (set scores)"
  let ?d = "if 0 < ?m then ?m else 1"
  let ?n = "map (\<lambda>x. x / ?d) scores"
  have m: "py_max scores = Inr ?m"
    using assms by (rule py_max_Max)
  have d: "score_divisor scores = Inr ?d"
    using m by (simp add: score_divisor_def)
  have dpos: "0 < ?d"
    by simp
  have n: "normalize_scores scores = Inr ?n"
    using d dpos by (simp add: normalize_scores_def np_div_def)
  have unchanged: "?n = scores" if "?m \<le> 0"
    using that by (simp add: map_idI)
  have zero: "\<forall>y \<in> set ?n. y = 0" if "\<forall>x \<in> set scores. x = 0"
    using that by auto
  have upper: "x / ?d \<le> 1" if "x \<in> set scores" for x
  proof -
    from that have "x \<le> ?m"
      by simp
    then show ?thesis
      by (auto simp: divide_le_eq)
  qed
  then have up: "\<forall>y \<in> set ?n. y \<le> 1"
    by auto
  have lower: "\<forall>y \<in> set ?n. 0 \<le> y" if "\<forall>x \<in> set scores. 0 \<le> x"
    using that dpos by auto
  have neg: "\<forall>i < length scores. scores ! i < 0 \<longrightarrow> ?n ! i < 0"
    using dpos by (auto simp: divide_neg_pos)
  have c: "combined_scores self query \<noteq> Inl DivisionByZero"
    using combined_scores_error by fastforce
  have s: "search self query \<noteq> Inl DivisionByZero"
    using search_error by fastforce
  from m n unchanged zero up lower neg c s show ?thesis
    by blast
qed

theorem normalize_scores_guard_witness:
  "[- 3, 1, 2 :: real] \<noteq> [] \<and> py_max [- 3, 1, 2] = Inr 2 \<and>
   normalize_scores [- 3, 1, 2] = Inr [- 3 / 2, 1 / 2, 1]"
proof -
  have h: "[- 3, 1, 2 :: real] \<noteq> []"
    by simp
  from normalize_scores_guard [OF h] show ?thesis
    by auto
qed

text \<open>
  The claim as stated speaks of every pair of raw score vectors, divides by the maximum
  unless it is 0, and bounds every entry by 0 and 1.  A vector whose maximum is negative
  is divided by 1 and not by its maximum, a negative raw score stays negative, and on the
  empty vector \<open>max\<close> raises, so that nothing is normalised.
\<close>

theorem normalize_scores_negative_counterexample:
  "py_max [- 1, - 2] = Inr (- 1) \<and> score_divisor [- 1, - 2] = Inr 1 \<and>
   normalize_scores [- 1, - 2] = Inr [- 1, - 2] \<and>
   normalize_scores [2, - 1] = Inr [1, - 1 / 2] \<and>
   normalize_scores [] = Inl ValueError"
  by (simp add: normalize_scores_def score_divisor_def np_div_def)

subsection \<open>Result tuples\<close>

text \<open>
  Claim C7.  When \<open>search\<close> returns and \<open>max_results\<close> is not negative, at most
  \<open>max_results\<close> tuples are returned; the weights are those of the query classifier, 0.5
  for a missing one; and every tuple is, for some snapshot index \<open>i\<close>, the chunk \<open>i\<close>, its
  source path, the combined score
  \<open>dense_weight * tfidf_norm[i] + sparse_weight * bm25_norm[i]\<close>, and the metadata with the
  combined score and both raw scores \<open>tfidf_similarities[i]\<close> and \<open>bm25_scores[i]\<close>.
  (The annotation and the docstring of \<open>search\<close> speak of triples; the code appends
  these four components, and \<open>feedback_loop_rag\<close> unpacks four.)
\<close>

theorem search_result_tuples:
  assumes "search self query = Inr results" and "0 \<le> max_results self"
  shows "length results \<le> nat (max_results self) \<and>
         dense_weight self query
           = (case analyze_query self query ''dense'' of Some w \<Rightarrow> w | None \<Rightarrow> 1 / 2) \<and>
         sparse_weight self query
           = (case analyze_query self query ''sparse'' of Some w \<Rightarrow> w | None \<Rightarrow> 1 / 2) \<and>
         (\<exists>tfidf_norm bm25_norm.
            normalize_scores (tfidf_similarities self query) = Inr tfidf_norm \<and>
            normalize_scores (bm25_get_scores self query) = Inr bm25_norm \<and>
            (\<forall>r \<in> set results. \<exists>i.
               i < length (documents self) \<and> i < length (doc_paths self) \<and>
               i < length tfidf_norm \<and> i < length bm25_norm \<and>
               r = (documents self ! i, doc_paths self ! i,
                    dense_weight self query * tfidf_norm ! i
                      + sparse_weight self query * bm25_norm ! i,
                    \<lparr>combined_score = dense_weight self query * tfidf_norm ! i
                                        + sparse_weight self query * bm25_norm ! i,
                     tfidf_score = tfidf_similarities self query ! i,
                     bm25_score = bm25_get_scores self query ! i\<rparr>)))"
proof -
  from search_Inr [OF assms(1)] obtain combined where
    c: "combined_scores self query = Inr combined" and
    rs: "list_all2 (\<lambda>idx r. result_at self query combined idx = Inr r)
           (ranked_indices (argsort self) combined (max_results self)) results"
    by blast
  from combined_scores_Inr [OF c] obtain tn bn where
    n1: "normalize_scores (tfidf_similarities self query) = Inr tn" and
    n2: "normalize_scores (bm25_get_scores self query) = Inr bn" and
    l1: "length tn = length (tfidf_similarities self query)" and
    l2: "length bn = length (bm25_get_scores self query)" and
    f: "\<And>i. i < length tn \<Longrightarrow> i < length bn \<Longrightarrow>
          combined ! i = dense_weight self query * tn ! i + sparse_weight self query * bn ! i"
    by blast
  have len: "length results \<le> nat (max_results self)"
    using list_all2_lengthD [OF rs]
      length_py_take [OF assms(2), of "rev (argsort self combined)"]
    by (simp add: ranked_indices_def)
  have each: "\<exists>i. i < length (documents self) \<and> i < length (doc_paths self) \<and>
               i < length tn \<and> i < length bn \<and>
               r = (documents self ! i, doc_paths self ! i,
                    dense_weight self query * tn ! i + sparse_weight self query * bn ! i,
                    \<lparr>combined_score = dense_weight self query * tn ! i
                                        + sparse_weight self query * bn ! i,
                     tfidf_score = tfidf_similarities self query ! i,
                     bm25_score = bm25_get_scores self query ! i\<rparr>)"
    if "r \<in> set results" for r
  proof -
    from that rs obtain idx where "result_at self query combined idx = Inr r"
      by (auto simp: list_all2_conv_all_nth in_set_conv_nth)
    from result_at_Inr [OF this] show ?thesis
      using f [of idx] l1 l2 by auto
  qed
  have dw: "dense_weight self query
              = (case analyze_query self query ''dense'' of Some w \<Rightarrow> w | None \<Rightarrow> 1 / 2)"
    by (simp add: dense_weight_def split: option.splits)
  have sw: "sparse_weight self query
              = (case analyze_query self query ''sparse'' of Some w \<Rightarrow> w | None \<Rightarrow> 1 / 2)"
    by (simp add: sparse_weight_def split: option.splits)
  from n1 n2 each have
    "\<exists>tfidf_norm bm25_norm.
       normalize_scores (tfidf_similarities self query) = Inr tfidf_norm \<and>
       normalize_scores (bm25_get_scores self query) = Inr bm25_norm \<and>
       (\<forall>r \<in> set results. \<exists>i.
          i < length (documents self) \<and> i < length (doc_paths self) \<and>
          i < length tfidf_norm \<and> i < length bm25_norm \<and>
          r = (documents self ! i, doc_paths self ! i,
               dense_weight self query * tfidf_norm ! i
                 + sparse_weight self query * bm25_norm ! i,
               \<lparr>combined_score = dense_weight self query * tfidf_norm ! i
                                   + sparse_weight self query * bm25_norm ! i,
                tfidf_score = tfidf_similarities self query ! i,
                bm25_score = bm25_get_scores self query ! i\<rparr>))"
    by blast
  with len dw sw show ?thesis
    by blast
qed

theorem search_result_tuples_witness:
  "search example_retriever ''q''
     = Inr [(''third chunk'', ''c.txt'', 3 / 4,
             \<lparr>combined_score = 3 / 4, tfidf_score = 1 / 2, bm25_score = 2\<rparr>),
            (''second chunk'', ''b.txt'', 1 / 2,
             \<lparr>combined_score = 1 / 2, tfidf_score = 1, bm25_score = 0\<rparr>),
            (''first chunk'', ''a.txt'', 1 / 4,
             \<lparr>combined_score = 1 / 4, tfidf_score = 0, bm25_score = 1\<rparr>)] \<and>
   0 \<le> max_results example_retriever \<and>
   length [(''third chunk'', ''c.txt'', 3 / 4 :: real,
             \<lparr>combined_score = 3 / 4, tfidf_score = 1 / 2, bm25_score = 2\<rparr>),
            (''second chunk'', ''b.txt'', 1 / 2,
             \<lparr>combined_score = 1 / 2, tfidf_score = 1, bm25_score = 0\<rparr>),
            (''first chunk'', ''a.txt'', 1 / 4,
             \<lparr>combined_score = 1 / 4, tfidf_score = 0, bm25_score = 1\<rparr>)]
     \<le> nat (max_results example_retriever)"
proof -
  have k: "0 \<le> max_results example_retriever"
    by (simp add: example_retriever_def)
  from search_result_tuples [OF example_search k] example_search k show ?thesis
    by blast
qed

subsection \<open>Index construction\<close>

text \<open>
  Claim C8, as amended.  \<open>Retriever.__init__\<close> does not compare the length of the chunk list
  with the length of the source-path list: with another path list the construction
  succeeds or fails as before, on the chunk list alone, and a retriever that was built
  holds both lists as they were given.
\<close>

theorem init_no_length_check:
  "Retriever_init libs docs paths' k
     = (case Retriever_init libs docs paths k of
          Inl e \<Rightarrow> Inl e
        | Inr self \<Rightarrow> Inr (self\<lparr>doc_paths := paths'\<rparr>)) \<and>
   (\<forall>self. Retriever_init libs docs paths k = Inr self \<longrightarrow>
      documents self = docs \<and> doc_paths self = paths)"
  by (auto simp: Retriever_init_def split: sum.splits)

theorem init_no_length_check_witness:
  "Retriever_init zero_libs [''a''] [] 5
     = Inr \<lparr>documents = [''a''], doc_paths = [], tfidf_similarities = (\<lambda>query. [0]),
            bm25_get_scores = (\<lambda>query. [0]), max_results = 5,
            analyze_query = (\<lambda>query. Map.empty),
            argsort = insertion_argsort\<rparr> \<and>
   documents \<lparr>documents = [''a''], doc_paths = [], tfidf_similarities = (\<lambda>query. [0]),
            bm25_get_scores = (\<lambda>query. [0]), max_results = 5,
            analyze_query = (\<lambda>query. Map.empty),
            argsort = insertion_argsort\<rparr> = [''a'']"
proof -
  have h: "Retriever_init zero_libs [''a''] [] 5
     = Inr \<lparr>documents = [''a''], doc_paths = [], tfidf_similarities = (\<lambda>query. [0]),
            bm25_get_scores = (\<lambda>query. [0]), max_results = 5,
            analyze_query = (\<lambda>query. Map.empty),
            argsort = insertion_argsort\<rparr>"
    by (simp add: Retriever_init_def zero_libs_def)
  from init_no_length_check [of zero_libs "[''a'']" "[]" 5 "[]"] h show ?thesis
    by simp
qed

text \<open>
  So a mismatch is not rejected at build time.  With two chunks and one source path the
  construction succeeds, and the search that follows raises \<open>IndexError\<close> when it reads
  the source path of the second chunk.
\<close>

theorem init_mismatch_counterexample:
  "build_and_search zero_libs [''first chunk'', ''second chunk''] [''a.txt''] 5 ''q''
     = Inr (Inl IndexError)"
  by (simp add: build_and_search_def Retriever_init_def zero_libs_def
      search_def combined_scores_def score_divisor_def np_div_def np_add_def
      np_scale_def dense_weight_def sparse_weight_def ranked_indices_def insertion_argsort_def
      py_take_def result_at_def py_index_def)

section \<open>Properties of the chunker\<close>

text \<open>
  The loop never splits a paragraph and always flushes the last buffer: a chunk once
  closed stays in the result; the words of every paragraph are, in order and without a
  gap, part of the words of one chunk; and when there is any word at all, the result ends
  with the chunk of a buffer that is not empty.
\<close>

lemma chunk_loop_keeps_chunks:
  "set emitted \<subseteq> set (chunk_loop chunk_size overlap emitted current_chunk current_length paragraphs)"
proof (induction paragraphs arbitrary: emitted current_chunk current_length)
  case Nil
  show ?case by auto
next
  case (Cons para paragraphs)
  show ?case
    using Cons.IH [of emitted current_chunk current_length]
      Cons.IH [of emitted "current_chunk @ py_split para"
                 "current_length + int (length (py_split para))"]
      Cons.IH [of "emitted @ [py_join '' '' current_chunk]"
                 "(if overlap > 0 then py_suffix overlap current_chunk else []) @ py_split para"
                 "int (length ((if overlap > 0 then py_suffix overlap current_chunk else [])
                                @ py_split para))"]
    by (auto simp: Let_def)
qed

lemma chunk_loop_flushes_buffer:
  assumes "current_chunk = pre @ ws @ post" and "ws \<noteq> []"
  shows "\<exists>c \<in> set (chunk_loop chunk_size overlap emitted current_chunk current_length paragraphs).
           \<exists>pre' post'. c = py_join '' '' (pre' @ ws @ post')"
  using assms
proof (induction paragraphs arbitrary: emitted current_chunk current_length post)
  case Nil
  then show ?case by auto
next
  case (Cons para paragraphs)
  let ?pw = "py_split para"
  consider (skip) "?pw = []"
    | (fits) "?pw \<noteq> []" "current_length + int (length ?pw) \<le> chunk_size"
    | (close) "?pw \<noteq> []" "\<not> current_length + int (length ?pw) \<le> chunk_size"
    by blast
  then show ?case
  proof cases
    case skip
    with Cons.IH [OF Cons.prems] show ?thesis
      by simp
  next
    case fits
    from Cons.prems have "current_chunk @ ?pw = pre @ ws @ (post @ ?pw)"
      by simp
    from Cons.IH [OF this Cons.prems(2)] fits show ?thesis
      by (simp add: Let_def)
  next
    case close
    let ?rest = "chunk_loop chunk_size overlap (emitted @ [py_join '' '' current_chunk])
                      ((if overlap > 0 then py_suffix overlap current_chunk else []) @ ?pw)
                      (int (length ((if overlap > 0 then py_suffix overlap current_chunk else [])
                                      @ ?pw)))
                      paragraphs"
    have "py_join '' '' current_chunk \<in> set ?rest"
      using chunk_loop_keeps_chunks by fastforce
    with Cons.prems(1) have "\<exists>c \<in> set ?rest. \<exists>pre' post'. c = py_join '' '' (pre' @ ws @ post')"
      by blast
    moreover have "chunk_loop chunk_size overlap emitted current_chunk current_length
                     (para # paragraphs) = ?rest"
      using close by (simp add: Let_def)
    ultimately show ?thesis
      by simp
  qed
qed

lemma chunk_loop_never_splits:
  assumes "para \<in> set paragraphs" and "py_split para \<noteq> []"
  shows "\<exists>c \<in> set (chunk_loop chunk_size overlap emitted current_chunk current_length paragraphs).
           \<exists>pre post. c = py_join '' '' (pre @ py_split para @ post)"
  using assms
proof (induction paragraphs arbitrary: emitted current_chunk current_length)
  case Nil
  then show ?case by simp
next
  case (Cons p paragraphs)
  show ?case
  proof (cases "para = p")
    case True
    let ?pw = "py_split para"
    let ?ov = "if overlap > 0 then py_suffix overlap current_chunk else []"
    have a: "current_chunk @ ?pw = current_chunk @ ?pw @ []"
      by simp
    have b: "?ov @ ?pw = ?ov @ ?pw @ []"
      by simp
    from chunk_loop_flushes_buffer [OF a Cons.prems(2)]
         chunk_loop_flushes_buffer [OF b Cons.prems(2)]
    show ?thesis
      using True Cons.prems(2) by (simp add: Let_def)
  next
    case False
    with Cons.prems have "para \<in> set paragraphs"
      by simp
    from Cons.IH [OF this Cons.prems(2)] show ?thesis
      by (simp add: Let_def)
  qed
qed

lemma chunk_loop_final_flush:
  assumes "current_chunk \<noteq> [] \<or> (\<exists>p \<in> set paragraphs. py_split p \<noteq> [])"
  shows "\<exists>front buffer. buffer \<noteq> [] \<and>
           chunk_loop chunk_size overlap emitted current_chunk current_length paragraphs
             = front @ [py_join '' '' buffer]"
  using assms
proof (induction paragraphs arbitrary: emitted current_chunk current_length)
  case Nil
  then show ?case by auto
next
  case (Cons p paragraphs)
  show ?case
  proof (cases "py_split p = []")
    case True
    with Cons.prems have "current_chunk \<noteq> [] \<or> (\<exists>p \<in> set paragraphs. py_split p \<noteq> [])"
      by auto
    from Cons.IH [OF this] True show ?thesis
      by simp
  next
    case False
    then show ?thesis
      using Cons.IH by (simp add: Let_def)
  qed
qed


text \<open>
  When the first paragraph has more words than \<open>chunk_size\<close>, the loop closes the current
  chunk although it is still empty: the chunk list starts with an empty string.  The
  flush after the loop tests \<open>if current_chunk\<close>; the branch inside the loop does not.
\<close>

lemma chunk_loop_oversized_first_paragraph:
  assumes "py_split para \<noteq> []" and "chunk_size < int (length (py_split para))"
  shows "chunk_loop chunk_size overlap [] [] 0 [para] = ['''', py_join '' '' (py_split para)]"
  using assms by (auto simp: Let_def py_suffix_def)

text \<open>
  Claim C5 says that a single paragraph longer than \<open>chunk_size\<close> is emitted as exactly one
  oversized chunk and contributes no other chunk.  On the one paragraph \<open>a b c\<close> with
  \<open>chunk_size = 2\<close> and \<open>overlap = 1\<close> the code returns two chunks, an empty one and the
  paragraph.
\<close>

theorem chunk_text_oversized_first_paragraph:
  "chunk_text ''a b c'' 2 1 = ['''', ''a b c'']"
  by (simp add: chunk_text_def paragraphs_of_def re_split_paragraphs_def
      re_split_scan.simps strip_def is_space_def newline_def replace_newlines_def
      py_split_def py_suffix_def)

section \<open>Properties of the chunk cache\<close>

subsection \<open>The pass, entry by entry\<close>

lemma load_loop_library:
  "library (load_loop fs st lib)
     = library st @ map (\<lambda>(name, meta). (name, fst (entry_step fs meta))) lib"
  by (induction lib arbitrary: st) (auto simp: entry_step_def split: option.splits prod.splits)

lemma load_loop_all_chunks:
  "all_chunks (load_loop fs st lib)
     = all_chunks st @ concat (map (\<lambda>(name, meta). fst (snd (entry_step fs meta))) lib)"
  by (induction lib arbitrary: st) (auto simp: entry_step_def split: option.splits prod.splits)

lemma load_loop_all_sources:
  "all_sources (load_loop fs st lib)
     = all_sources st
       @ concat (map (\<lambda>(name, meta).
                   replicate (length (fst (snd (entry_step fs meta)))) (file_path meta)) lib)"
  by (induction lib arbitrary: st) (auto simp: entry_step_def split: option.splits prod.splits)

lemma load_loop_updated:
  "updated (load_loop fs st lib)
     \<longleftrightarrow> updated st \<or> (\<exists>(name, meta) \<in> set lib. snd (snd (entry_step fs meta)))"
  by (induction lib arbitrary: st) (auto simp: entry_step_def split: option.splits prod.splits)

lemma load_loop_extracted:
  "extracted (load_loop fs st lib)
     = extracted st
       @ concat (map (\<lambda>(name, meta).
                   if snd (snd (entry_step fs meta)) then [file_path meta] else []) lib)"
  by (induction lib arbitrary: st) (auto simp: entry_step_def split: option.splits prod.splits)

lemma new_library_eq:
  "new_library (load_and_chunk_files fs lib store_path chunk_size)
     = map (\<lambda>(name, meta). (name, fst (entry_step fs meta))) lib"
  by (simp add: load_and_chunk_files_def Let_def load_loop_library)

lemma flat_chunks_eq:
  "flat_chunks (load_and_chunk_files fs lib store_path chunk_size)
     = concat (map (\<lambda>(name, meta). fst (snd (entry_step fs meta))) lib)"
  by (simp add: load_and_chunk_files_def Let_def load_loop_all_chunks)

lemma flat_sources_eq:
  "flat_sources (load_and_chunk_files fs lib store_path chunk_size)
     = concat (map (\<lambda>(name, meta).
                 replicate (length (fst (snd (entry_step fs meta)))) (file_path meta)) lib)"
  by (simp add: load_and_chunk_files_def Let_def load_loop_all_sources)

lemma extraction_calls_eq:
  "extraction_calls (load_and_chunk_files fs lib store_path chunk_size)
     = concat (map (\<lambda>(name, meta).
                 if snd (snd (entry_step fs meta)) then [file_path meta] else []) lib)"
  by (simp add: load_and_chunk_files_def Let_def load_loop_extracted)

lemma written_eq:
  "written (load_and_chunk_files fs lib store_path chunk_size) = None
     \<longleftrightarrow> (\<forall>(name, meta) \<in> set lib. \<not> snd (snd (entry_step fs meta)))"
  by (auto simp: load_and_chunk_files_def Let_def load_loop_updated)

lemma split_at:
  assumes "i < length lib"
  shows "lib = take i lib @ lib ! i # drop (Suc i) lib"
  using assms by (rule id_take_nth_drop)

lemma entry_step_missing:
  "stat fs (file_path meta) = None \<Longrightarrow> entry_step fs meta = (meta, [], False)"
  by (simp add: entry_step_def)

lemma entry_step_stale:
  assumes "stat fs (file_path meta) = Some info"
    and "chunks meta = None \<or> chunks meta = Some [] \<or> last_modified meta \<noteq> Some (st_mtime info)"
  shows "\<exists>meta'. entry_step fs meta
            = (meta', chunk_text (read_text fs (file_path meta)) 500 50, True) \<and>
          chunks meta' = Some (chunk_text (read_text fs (file_path meta)) 500 50) \<and>
          last_modified meta' = Some (st_mtime info) \<and>
          file_path meta' = resolve fs (file_path meta)"
  using assms
  by (simp add: entry_step_def process_file_def needs_chunking_def read_and_chunk_file_def
      Let_def)

lemma entry_step_fresh:
  assumes "stat fs (file_path meta) = Some info"
    and "\<not> (chunks meta = None \<or> chunks meta = Some [] \<or> last_modified meta \<noteq> Some (st_mtime info))"
  shows "\<exists>meta' stored. entry_step fs meta = (meta', stored, False) \<and>
          chunks meta = Some stored \<and> stored \<noteq> [] \<and>
          chunks meta' = chunks meta \<and>
          last_modified meta' = last_modified meta \<and>
          file_path meta' = resolve fs (file_path meta)"
  using assms
  by (auto simp: entry_step_def process_file_def needs_chunking_def Let_def)

lemma entry_step_again:
  assumes same_file: "\<And>info. stat fs (file_path meta) = Some info \<Longrightarrow>
                        stat fs (resolve fs (file_path meta)) = Some info \<and>
                        read_text fs (resolve fs (file_path meta))
                          = read_text fs (file_path meta)"
  shows "fst (snd (entry_step fs (fst (entry_step fs meta)))) = fst (snd (entry_step fs meta)) \<and>
         (snd (snd (entry_step fs (fst (entry_step fs meta)))) \<longleftrightarrow>
            stat fs (file_path (fst (entry_step fs meta))) \<noteq> None \<and>
            chunks (fst (entry_step fs meta)) = Some [])"
proof (cases "stat fs (file_path meta)")
  case None
  then show ?thesis
    by (simp add: entry_step_missing)
next
  case (Some info)
  let ?stale = "chunks meta = None \<or> chunks meta = Some [] \<or>
                last_modified meta \<noteq> Some (st_mtime info)"
  let ?fresh = "chunk_text (read_text fs (file_path meta)) 500 50"
  have "\<exists>meta' cs. entry_step fs meta = (meta', cs, ?stale) \<and> chunks meta' = Some cs \<and>
          last_modified meta' = Some (st_mtime info) \<and>
          file_path meta' = resolve fs (file_path meta) \<and>
          (cs = [] \<longrightarrow> ?fresh = [])"
  proof (cases ?stale)
    case True
    from entry_step_stale [OF Some True] show ?thesis
      using True by auto
  next
    case False
    from entry_step_fresh [OF Some False] show ?thesis
      using False by auto
  qed
  then obtain meta' cs where
    step: "entry_step fs meta = (meta', cs, ?stale)" and
    c: "chunks meta' = Some cs" and
    t: "last_modified meta' = Some (st_mtime info)" and
    p: "file_path meta' = resolve fs (file_path meta)" and
    e: "cs = [] \<longrightarrow> ?fresh = []"
    by blast
  have st: "stat fs (file_path meta') = Some info"
    using same_file [OF Some] p by simp
  have rt: "read_text fs (file_path meta') = read_text fs (file_path meta)"
    using same_file [OF Some] p by simp
  show ?thesis
  proof (cases "cs = []")
    case True
    with c have "chunks meta' = None \<or> chunks meta' = Some [] \<or>
                 last_modified meta' \<noteq> Some (st_mtime info)"
      by simp
    from entry_step_stale [OF st this] rt e True c st step show ?thesis
      by auto
  next
    case False
    with c t have "\<not> (chunks meta' = None \<or> chunks meta' = Some [] \<or>
                      last_modified meta' \<noteq> Some (st_mtime info))"
      by simp
    from entry_step_fresh [OF st this] c False step show ?thesis
      by auto
  qed
qed

lemma concat_map_if:
  "concat (map (\<lambda>(name, meta). if P name meta then [f name meta] else []) xs)
     = map (\<lambda>(name, meta). f name meta) (filter (\<lambda>(name, meta). P name meta) xs)"
  by (induction xs) auto

lemmas example_defs =
  load_and_chunk_files_def example_library_def new_entry_def gone_entry_def one_file_fs_def
  process_file_def needs_chunking_def read_and_chunk_file_def py_round2_def
  round_half_even_def chunk_text_def paragraphs_of_def re_split_paragraphs_def
  re_split_scan.simps strip_def is_space_def newline_def replace_newlines_def py_split_def
  py_suffix_def Let_def

lemma example_first_pass:
  "load_and_chunk_files (one_file_fs ''hello world'') example_library ''library.json'' 500
     = \<lparr>new_library =
          [(''notes.txt'',
            \<lparr>file_path = ''notes.txt'', chunks = Some [''hello world''],
             num_chunks = Some 1, last_modified = Some 7,
             file_name = Some ''notes.txt'', size_kb = Some 2,
             created_at = Some ''1970-01-01T00:00:05''\<rparr>),
           (''gone.txt'', gone_entry)],
        flat_chunks = [''hello world''],
        flat_sources = [''notes.txt''],
        written = Some (''library.json'',
          [(''notes.txt'',
            \<lparr>file_path = ''notes.txt'', chunks = Some [''hello world''],
             num_chunks = Some 1, last_modified = Some 7,
             file_name = Some ''notes.txt'', size_kb = Some 2,
             created_at = Some ''1970-01-01T00:00:05''\<rparr>),
           (''gone.txt'', gone_entry)]),
        extraction_calls = [''notes.txt'']\<rparr>"
  by (simp add: example_defs)

subsection \<open>A file that exists\<close>

text \<open>
  Claim C3.  Take the entry at any position \<open>i\<close> of the library whose file exists, and call
  its record stale when it has no chunk list, or an empty one, or a stored \<open>last_modified\<close>
  that is not the current modification time of the file.  If the record is stale, the
  pass calls the extraction and the chunker for the file, at this entry's turn, and stores
  the new chunk list and the current modification time.  If it is not stale, the pass
  calls neither, keeps the stored chunk list and modification time, and puts the stored
  chunks as they are into the flattened list, between the chunks of the entries before
  and after.
\<close>

theorem reconcile_existing_file:
  assumes "i < length lib" and "lib ! i = (name, meta)"
    and "stat fs (file_path meta) = Some info"
  shows "let stale = (chunks meta = None \<or> chunks meta = Some [] \<or>
                       last_modified meta \<noteq> Some (st_mtime info));
             fresh = chunk_text (read_text fs (file_path meta)) 500 50;
             res = load_and_chunk_files fs lib store_path chunk_size;
             before = load_and_chunk_files fs (take i lib) store_path chunk_size;
             after = load_and_chunk_files fs (drop (Suc i) lib) store_path chunk_size
         in fst (new_library res ! i) = name \<and>
            chunks (snd (new_library res ! i)) = (if stale then Some fresh else chunks meta) \<and>
            last_modified (snd (new_library res ! i))
              = (if stale then Some (st_mtime info) else last_modified meta) \<and>
            extraction_calls res
              = extraction_calls before @ (if stale then [file_path meta] else [])
                @ extraction_calls after \<and>
            (\<exists>stored. (\<not> stale \<longrightarrow> chunks meta = Some stored) \<and>
               flat_chunks res
                 = flat_chunks before @ (if stale then fresh else stored) @ flat_chunks after) \<and>
            (stale \<longrightarrow> written res \<noteq> None)"
proof -
  let ?stale = "chunks meta = None \<or> chunks meta = Some [] \<or>
                last_modified meta \<noteq> Some (st_mtime info)"
  let ?fresh = "chunk_text (read_text fs (file_path meta)) 500 50"
  have lib: "lib = take i lib @ (name, meta) # drop (Suc i) lib"
    using split_at [OF assms(1)] assms(2) by simp
  have nth: "new_library (load_and_chunk_files fs lib store_path chunk_size) ! i
               = (name, fst (entry_step fs meta))"
    using assms(1,2) by (simp add: new_library_eq)
  have mem: "(name, meta) \<in> set lib"
    using assms(1,2) by (metis nth_mem)
  show ?thesis
  proof (cases ?stale)
    case True
    from entry_step_stale [OF assms(3) True] obtain meta' where
      step: "entry_step fs meta = (meta', ?fresh, True)" and
      m: "chunks meta' = Some ?fresh" "last_modified meta' = Some (st_mtime info)"
      by blast
    have calls: "extraction_calls (load_and_chunk_files fs lib store_path chunk_size)
                   = extraction_calls (load_and_chunk_files fs (take i lib) store_path chunk_size)
                     @ [file_path meta]
                     @ extraction_calls
                         (load_and_chunk_files fs (drop (Suc i) lib) store_path chunk_size)"
      by (subst lib) (simp add: extraction_calls_eq step)
    have flat: "flat_chunks (load_and_chunk_files fs lib store_path chunk_size)
                   = flat_chunks (load_and_chunk_files fs (take i lib) store_path chunk_size)
                     @ ?fresh
                     @ flat_chunks
                         (load_and_chunk_files fs (drop (Suc i) lib) store_path chunk_size)"
      by (subst lib) (simp add: flat_chunks_eq step)
    have wr: "written (load_and_chunk_files fs lib store_path chunk_size) \<noteq> None"
      unfolding written_eq using mem step by (auto intro!: bexI [of _ "(name, meta)"])
    from True nth step m calls flat wr show ?thesis
      by (simp add: Let_def)
  next
    case False
    from entry_step_fresh [OF assms(3) False] obtain meta' stored where
      step: "entry_step fs meta = (meta', stored, False)" and
      st: "chunks meta = Some stored" and
      m: "chunks meta' = chunks meta" "last_modified meta' = last_modified meta"
      by blast
    have calls: "extraction_calls (load_and_chunk_files fs lib store_path chunk_size)
                   = extraction_calls (load_and_chunk_files fs (take i lib) store_path chunk_size)
                     @ extraction_calls
                         (load_and_chunk_files fs (drop (Suc i) lib) store_path chunk_size)"
      by (subst lib) (simp add: extraction_calls_eq step)
    have flat: "flat_chunks (load_and_chunk_files fs lib store_path chunk_size)
                   = flat_chunks (load_and_chunk_files fs (take i lib) store_path chunk_size)
                     @ stored
                     @ flat_chunks
                         (load_and_chunk_files fs (drop (Suc i) lib) store_path chunk_size)"
      by (subst lib) (simp add: flat_chunks_eq step)
    from False nth step st m calls flat show ?thesis
      by (simp add: Let_def)
  qed
qed

theorem reconcile_existing_file_witness:
  "0 < length example_library \<and>
   example_library ! 0 = (''notes.txt'', new_entry ''notes.txt'') \<and>
   stat (one_file_fs ''hello world'') (file_path (new_entry ''notes.txt''))
     = Some \<lparr>st_mtime = 7, st_ctime = 5, st_size = 2048\<rparr> \<and>
   chunks (snd (new_library
      (load_and_chunk_files (one_file_fs ''hello world'') example_library
         ''library.json'' 500) ! 0)) = Some [''hello world''] \<and>
   extraction_calls
      (load_and_chunk_files (one_file_fs ''hello world'') example_library
         ''library.json'' 500) = [''notes.txt'']"
proof -
  have h1: "0 < length example_library"
    by (simp add: example_library_def)
  have h2: "example_library ! 0 = (''notes.txt'', new_entry ''notes.txt'')"
    by (simp add: example_library_def)
  have h3: "stat (one_file_fs ''hello world'') (file_path (new_entry ''notes.txt''))
              = Some \<lparr>st_mtime = 7, st_ctime = 5, st_size = 2048\<rparr>"
    by (simp add: one_file_fs_def new_entry_def)
  from reconcile_existing_file [OF h1 h2 h3, of "''library.json''" 500] h1 h2 h3
  show ?thesis
    by (simp add: example_first_pass)
qed

subsection \<open>A file that is gone\<close>

text \<open>
  Claim C9.  For the entry at any position \<open>i\<close> whose path does not exist, the pass keeps
  the entry as it is, at its position, in a library of the same length; and the flattened
  chunks, the flattened sources, the extraction calls and the decision to write are
  those of the library without that entry.  The pass is a total function: skipping the
  entry raises nothing.
\<close>

theorem reconcile_missing_file:
  assumes "i < length lib" and "lib ! i = (name, meta)"
    and "stat fs (file_path meta) = None"
  shows "let res = load_and_chunk_files fs lib store_path chunk_size;
             without = load_and_chunk_files fs (take i lib @ drop (Suc i) lib)
                         store_path chunk_size
         in new_library res ! i = (name, meta) \<and>
            length (new_library res) = length lib \<and>
            flat_chunks res = flat_chunks without \<and>
            flat_sources res = flat_sources without \<and>
            extraction_calls res = extraction_calls without \<and>
            (written res = None \<longleftrightarrow> written without = None)"
proof -
  have lib: "lib = take i lib @ (name, meta) # drop (Suc i) lib"
    using split_at [OF assms(1)] assms(2) by simp
  have step: "entry_step fs meta = (meta, [], False)"
    using assms(3) by (rule entry_step_missing)
  have nth: "new_library (load_and_chunk_files fs lib store_path chunk_size) ! i = (name, meta)"
    using assms(1,2) by (simp add: new_library_eq step)
  have len: "length (new_library (load_and_chunk_files fs lib store_path chunk_size))
               = length lib"
    by (simp add: new_library_eq)
  have flat: "flat_chunks (load_and_chunk_files fs lib store_path chunk_size)
                = flat_chunks (load_and_chunk_files fs (take i lib @ drop (Suc i) lib)
                                 store_path chunk_size)"
    by (subst lib) (simp add: flat_chunks_eq step)
  have src: "flat_sources (load_and_chunk_files fs lib store_path chunk_size)
                = flat_sources (load_and_chunk_files fs (take i lib @ drop (Suc i) lib)
                                 store_path chunk_size)"
    by (subst lib) (simp add: flat_sources_eq step)
  have calls: "extraction_calls (load_and_chunk_files fs lib store_path chunk_size)
                = extraction_calls (load_and_chunk_files fs (take i lib @ drop (Suc i) lib)
                                 store_path chunk_size)"
    by (subst lib) (simp add: extraction_calls_eq step)
  have wr: "written (load_and_chunk_files fs lib store_path chunk_size) = None
              \<longleftrightarrow> written (load_and_chunk_files fs (take i lib @ drop (Suc i) lib)
                                 store_path chunk_size) = None"
    by (subst lib) (auto simp: written_eq step)
  from nth len flat src calls wr show ?thesis
    by (simp add: Let_def)
qed

theorem reconcile_missing_file_witness:
  "1 < length example_library \<and>
   example_library ! 1 = (''gone.txt'', gone_entry) \<and>
   stat (one_file_fs ''hello world'') (file_path gone_entry) = None \<and>
   new_library
      (load_and_chunk_files (one_file_fs ''hello world'') example_library
         ''library.json'' 500) ! 1 = (''gone.txt'', gone_entry) \<and>
   flat_chunks
      (load_and_chunk_files (one_file_fs ''hello world'') example_library
         ''library.json'' 500) = [''hello world'']"
proof -
  have h1: "1 < length example_library"
    by (simp add: example_library_def)
  have h2: "example_library ! 1 = (''gone.txt'', gone_entry)"
    by (simp add: example_library_def)
  have h3: "stat (one_file_fs ''hello world'') (file_path gone_entry) = None"
    by (simp add: one_file_fs_def gone_entry_def)
  from reconcile_missing_file [OF h1 h2 h3, of "''library.json''" 500] h1 h2 h3
  show ?thesis
    by (simp add: example_first_pass)
qed

subsection \<open>Two passes in succession\<close>

text \<open>
  Claim C6, as amended.  Let the file system be the same for both passes, with the
  resolved path of every tracked file that exists naming the same file: the same
  \<open>stat()\<close> result and the same text.  Then the second pass, run on the library the first
  one returned, gives the same flattened chunk list.  It calls the extraction again for
  exactly the tracked files that exist and have an empty chunk list after the first pass,
  and it writes nothing if and only if there is no such file.
\<close>

theorem reconcile_twice:
  assumes same_file:
      "\<forall>(name, meta) \<in> set lib. \<forall>info.
         stat fs (file_path meta) = Some info \<longrightarrow>
         stat fs (resolve fs (file_path meta)) = Some info \<and>
         read_text fs (resolve fs (file_path meta)) = read_text fs (file_path meta)"
  shows "let first = load_and_chunk_files fs lib store_path chunk_size;
             second = load_and_chunk_files fs (new_library first) store_path chunk_size
         in flat_chunks second = flat_chunks first \<and>
            extraction_calls second
              = map (\<lambda>(name, meta). file_path meta)
                  (filter (\<lambda>(name, meta). stat fs (file_path meta) \<noteq> None \<and>
                                            chunks meta = Some [])
                     (new_library first)) \<and>
            (written second = None \<longleftrightarrow>
               (\<forall>(name, meta) \<in> set (new_library first).
                  stat fs (file_path meta) \<noteq> None \<longrightarrow> chunks meta \<noteq> Some []))"
proof -
  let ?first = "load_and_chunk_files fs lib store_path chunk_size"
  let ?second = "load_and_chunk_files fs (new_library ?first) store_path chunk_size"
  have again: "fst (snd (entry_step fs (fst (entry_step fs meta))))
                 = fst (snd (entry_step fs meta)) \<and>
               (snd (snd (entry_step fs (fst (entry_step fs meta)))) \<longleftrightarrow>
                  stat fs (file_path (fst (entry_step fs meta))) \<noteq> None \<and>
                  chunks (fst (entry_step fs meta)) = Some [])"
    if "(name, meta) \<in> set lib" for name meta
  proof (rule entry_step_again)
    fix info
    assume "stat fs (file_path meta) = Some info"
    with same_file that show "stat fs (resolve fs (file_path meta)) = Some info \<and>
        read_text fs (resolve fs (file_path meta)) = read_text fs (file_path meta)"
      by blast
  qed
  have needs: "snd (snd (entry_step fs meta)) \<longleftrightarrow>
                 stat fs (file_path meta) \<noteq> None \<and> chunks meta = Some []"
    if "(name, meta) \<in> set (new_library ?first)" for name meta
    using that again by (auto simp: new_library_eq)
  have flat: "flat_chunks ?second = flat_chunks ?first"
    unfolding flat_chunks_eq new_library_eq map_map
    by (rule arg_cong [where f = concat], rule map_cong) (auto simp: again)
  have "extraction_calls ?second
          = concat (map (\<lambda>(name, meta).
                      if stat fs (file_path meta) \<noteq> None \<and> chunks meta = Some []
                      then [file_path meta] else []) (new_library ?first))"
    unfolding extraction_calls_eq [of fs "new_library ?first"]
    by (rule arg_cong [where f = concat], rule map_cong) (auto simp: needs)
  also have "\<dots> = map (\<lambda>(name, meta). file_path meta)
                     (filter (\<lambda>(name, meta). stat fs (file_path meta) \<noteq> None \<and>
                                               chunks meta = Some [])
                        (new_library ?first))"
    by (rule concat_map_if [of "\<lambda>name meta. stat fs (file_path meta) \<noteq> None \<and>
                                            chunks meta = Some []"
                               "\<lambda>name meta. file_path meta"])
  finally have calls: "extraction_calls ?second
          = map (\<lambda>(name, meta). file_path meta)
              (filter (\<lambda>(name, meta). stat fs (file_path meta) \<noteq> None \<and>
                                        chunks meta = Some [])
                 (new_library ?first))" .
  have wr: "written ?second = None \<longleftrightarrow>
              (\<forall>(name, meta) \<in> set (new_library ?first).
                 stat fs (file_path meta) \<noteq> None \<longrightarrow> chunks meta \<noteq> Some [])"
    unfolding written_eq [of fs "new_library ?first"]
    using needs by fastforce
  from flat calls wr show ?thesis
    by (simp add: Let_def)
qed

theorem reconcile_twice_witness:
  "flat_chunks
     (load_and_chunk_files (one_file_fs ''hello world'')
        (new_library (load_and_chunk_files (one_file_fs ''hello world'') example_library
                        ''library.json'' 500))
        ''library.json'' 500) = [''hello world''] \<and>
   extraction_calls
     (load_and_chunk_files (one_file_fs ''hello world'')
        (new_library (load_and_chunk_files (one_file_fs ''hello world'') example_library
                        ''library.json'' 500))
        ''library.json'' 500) = [] \<and>
   written
     (load_and_chunk_files (one_file_fs ''hello world'')
        (new_library (load_and_chunk_files (one_file_fs ''hello world'') example_library
                        ''library.json'' 500))
        ''library.json'' 500) = None"
proof -
  let ?fs = "one_file_fs ''hello world''"
  let ?first = "load_and_chunk_files ?fs example_library ''library.json'' 500"
  let ?second = "load_and_chunk_files ?fs (new_library ?first) ''library.json'' 500"
  have h: "\<forall>(name, meta) \<in> set example_library. \<forall>info.
              stat ?fs (file_path meta) = Some info \<longrightarrow>
              stat ?fs (resolve ?fs (file_path meta)) = Some info \<and>
              read_text ?fs (resolve ?fs (file_path meta)) = read_text ?fs (file_path meta)"
    by (simp add: one_file_fs_def)
  have e: "filter (\<lambda>(name, meta). stat ?fs (file_path meta) \<noteq> None \<and> chunks meta = Some [])
             (new_library ?first) = []"
    unfolding example_first_pass by (simp add: gone_entry_def one_file_fs_def)
  have w: "\<forall>(name, meta) \<in> set (new_library ?first).
             stat ?fs (file_path meta) \<noteq> None \<longrightarrow> chunks meta \<noteq> Some []"
    unfolding example_first_pass by (simp add: gone_entry_def one_file_fs_def)
  from reconcile_twice [OF h, of "''library.json''" 500] have
    a: "flat_chunks ?second = flat_chunks ?first" and
    b: "extraction_calls ?second
          = map (\<lambda>(name, meta). file_path meta)
              (filter (\<lambda>(name, meta). stat ?fs (file_path meta) \<noteq> None \<and>
                                        chunks meta = Some [])
                 (new_library ?first))" and
    c: "written ?second = None \<longleftrightarrow>
          (\<forall>(name, meta) \<in> set (new_library ?first).
             stat ?fs (file_path meta) \<noteq> None \<longrightarrow> chunks meta \<noteq> Some [])"
    by (simp_all add: Let_def)
  from a have "flat_chunks ?second = [''hello world'']"
    by (simp add: example_first_pass)
  moreover from b e have "extraction_calls ?second = []"
    by simp
  moreover from c w have "written ?second = None"
    by simp
  ultimately show ?thesis
    by simp
qed

text \<open>
  The claim as stated says that the second pass never writes.  The test
  \<open>not file_meta["chunks"]\<close> makes a record with an empty chunk list stale in every pass:
  a tracked file with no text has no chunk, so the second pass extracts it again and
  writes the record set again, although nothing changed.
\<close>

theorem reconcile_twice_empty_file_counterexample:
  "extraction_calls
     (load_and_chunk_files (one_file_fs '''')
        (new_library (load_and_chunk_files (one_file_fs '''') example_library
                        ''library.json'' 500))
        ''library.json'' 500) = [''notes.txt''] \<and>
   written
     (load_and_chunk_files (one_file_fs '''')
        (new_library (load_and_chunk_files (one_file_fs '''') example_library
                        ''library.json'' 500))
        ''library.json'' 500)
     = Some (''library.json'',
          [(''notes.txt'',
            \<lparr>file_path = ''notes.txt'', chunks = Some [],
             num_chunks = Some 0, last_modified = Some 7,
             file_name = Some ''notes.txt'', size_kb = Some 2,
             created_at = Some ''1970-01-01T00:00:05''\<rparr>),
           (''gone.txt'', gone_entry)])"
  by (simp add: example_defs)

section \<open>Properties of the answer generation\<close>

text \<open>
  Claim C10.  With an empty chunk list and web search disabled, \<open>generate_answer\<close> returns
  the fixed fallback sentence and sends no prompt to the collaborator, whatever the query,
  the scores and the collaborator are.
\<close>

theorem generate_answer_no_chunks:
  "generate_answer generate_content format_2f query [] scores False
     = (Inr ''I couldn't find any relevant content to answer your question.'', [])"
  by (simp add: generate_answer_def fallback_answer_def)

end
